theory Spec2Isabelle
  imports Main
begin

section \<open>Circuit breaker: data model\<close>

text \<open>
  The repository holds two implementations of the same breaker, both in
  \<^verbatim>\<open>circuitBreaker.ts\<close>: one that keeps a handler object per state
  (\<^verbatim>\<open>ClosedState\<close>, \<^verbatim>\<open>OpenState\<close>, \<^verbatim>\<open>HalfOpenState\<close>) and one that keeps
  the enum \<^verbatim>\<open>CircuitBreakerState\<close> in a field. Both are embedded below, the second
  with the suffix \<open>E\<close> on its names.

  TypeScript's \<^verbatim>\<open>number\<close> is modelled by \<open>int\<close>: the counters only ever hold small
  integers and the timestamps are integral milliseconds. \<^verbatim>\<open>number | null\<close> is
  \<open>int option\<close>.
\<close>

datatype CircuitBreakerState = CLOSED | OPEN | HALF_OPEN

record CircuitBreakerConfig =
  failureThreshold :: int
  timeout :: int
  maxHalfOpenRequests :: int

text \<open>The three handler classes have no fields; an object of one of them is its class.\<close>

datatype State = ClosedState | OpenState | HalfOpenState

record CircuitBreaker =
  state :: State
  failureCount :: int
  lastFailureTime :: "int option"
  config :: CircuitBreakerConfig
  responseTimes :: "int list"
  halfOpenRequestCount :: int

text \<open>
  The breaker throws \<^verbatim>\<open>new Error('Circuit is OPEN - request blocked')\<close> and
  \<^verbatim>\<open>new Error('Max HALF_OPEN requests exceeded')\<close>; an error of the service is
  rethrown as it is. \<open>TypeError\<close> is the error JavaScript raises when a property
  of \<^verbatim>\<open>null\<close> or \<^verbatim>\<open>undefined\<close> is read.
\<close>

datatype 'e error = CircuitOpenError | ProbeLimitExceededError | ServiceError 'e | TypeError

text \<open>
  What the promise returned by \<^verbatim>\<open>service()\<close> settles to. Every \<^verbatim>\<open>catch\<close> block
  starts with \<^verbatim>\<open>console.error((error as Error).message)\<close>, so two kinds of
  rejection are told apart. \<open>Rejects e\<close> carries a value \<open>e\<close> other than
  \<^verbatim>\<open>null\<close> and \<^verbatim>\<open>undefined\<close>: reading \<^verbatim>\<open>.message\<close> succeeds and the line only
  logs. \<open>RejectsNullish\<close> is a rejection with \<^verbatim>\<open>null\<close> or \<^verbatim>\<open>undefined\<close>
  (\<^verbatim>\<open>Promise.reject()\<close>): reading \<^verbatim>\<open>.message\<close> throws a \<^verbatim>\<open>TypeError\<close> out of
  the \<^verbatim>\<open>catch\<close> block, and the statements after the log line are not run.
\<close>

datatype ('a, 'e) outcome = Resolves 'a | Rejects 'e | RejectsNullish

subsection \<open>The wall clock\<close>

text \<open>
  \<^verbatim>\<open>Date.now()\<close> is the only ambient input. The clock is the sequence of readings
  still to come; each \<^verbatim>\<open>Date.now()\<close> takes the next one. Nothing is assumed of the
  readings (they need not grow).
\<close>

type_synonym clock = "nat \<Rightarrow> int"

definition Date_now :: "clock \<Rightarrow> int \<times> clock" where
  "Date_now clk = (clk 0, \<lambda>k. clk (Suc k))"

text \<open>
  The test \<^verbatim>\<open>lastFailureTime && now - lastFailureTime >= timeout\<close> of both
  implementations. \<^verbatim>\<open>&&\<close> stops at a falsy left operand, and \<^verbatim>\<open>null\<close> and
  \<^verbatim>\<open>0\<close> are falsy.
\<close>

definition timeoutElapsed :: "int option \<Rightarrow> int \<Rightarrow> int \<Rightarrow> bool" where
  "timeoutElapsed lft now t =
     (case lft of None \<Rightarrow> False | Some l \<Rightarrow> l \<noteq> 0 \<and> now - l \<ge> t)"

subsection \<open>Shape of a call\<close>

text \<open>
  An \<^verbatim>\<open>async\<close> method runs synchronously up to its \<^verbatim>\<open>await service()\<close> and
  resumes when the service has settled. Each \<^verbatim>\<open>callService\<close> is therefore given in
  two parts: \<open>_begin\<close>, which either throws before the service is called or calls
  it and suspends, and \<open>_resume\<close>, the rest of the method. A gate says which of
  the two happened; \<open>Invoked\<close> carries what the suspended method keeps in its frame.
\<close>

datatype ('e, 'f) gate = Rejected "'e error" | Invoked 'f

text \<open>
  The result of one whole call made with nothing else in between: what the caller
  gets, how often \<^verbatim>\<open>service()\<close> was called, the breaker and the clock afterwards.
\<close>

record ('r, 'c) completed =
  reply :: 'r
  invocations :: nat
  breaker :: 'c
  clock_after :: clock

section \<open>The implementation with one handler per state\<close>

definition CircuitBreaker_new :: "CircuitBreakerConfig \<Rightarrow> CircuitBreaker" where
  "CircuitBreaker_new cfg =
     \<lparr>state = ClosedState, failureCount = 0, lastFailureTime = None, config = cfg,
      responseTimes = [], halfOpenRequestCount = 0\<rparr>"

definition getState :: "CircuitBreaker \<Rightarrow> CircuitBreakerState" where
  "getState ctx =
     (if state ctx = ClosedState then CLOSED
      else if state ctx = OpenState then OPEN
      else HALF_OPEN)"

definition setState :: "CircuitBreaker \<Rightarrow> State \<Rightarrow> CircuitBreaker" where
  "setState ctx s = ctx\<lparr>state := s\<rparr>"

definition recordFailure :: "CircuitBreaker \<Rightarrow> clock \<Rightarrow> CircuitBreaker \<times> clock" where
  "recordFailure ctx clk =
     (let ctx1 = ctx\<lparr>failureCount := failureCount ctx + 1\<rparr>;
          (now, clk1) = Date_now clk
      in (ctx1\<lparr>lastFailureTime := Some now\<rparr>, clk1))"

definition reset :: "CircuitBreaker \<Rightarrow> CircuitBreaker" where
  "reset ctx = ctx\<lparr>failureCount := 0, lastFailureTime := None, halfOpenRequestCount := 0\<rparr>"

definition recordResponseTime :: "CircuitBreaker \<Rightarrow> int \<Rightarrow> CircuitBreaker" where
  "recordResponseTime ctx time = ctx\<lparr>responseTimes := responseTimes ctx @ [time]\<rparr>"

definition incrementHalfOpenRequest :: "CircuitBreaker \<Rightarrow> CircuitBreaker" where
  "incrementHalfOpenRequest ctx = ctx\<lparr>halfOpenRequestCount := halfOpenRequestCount ctx + 1\<rparr>"

subsection \<open>ClosedState\<close>

definition ClosedState_onSuccess :: "CircuitBreaker \<Rightarrow> CircuitBreaker" where
  "ClosedState_onSuccess ctx = reset ctx"

definition ClosedState_onFailure :: "CircuitBreaker \<Rightarrow> clock \<Rightarrow> CircuitBreaker \<times> clock" where
  "ClosedState_onFailure ctx clk =
     (let (ctx1, clk1) = recordFailure ctx clk
      in if failureCount ctx1 \<ge> failureThreshold (config ctx1)
         then (setState ctx1 OpenState, clk1)
         else (ctx1, clk1))"

text \<open>What a suspended \<^verbatim>\<open>callService\<close> holds: the handler it runs in and its \<^verbatim>\<open>startTime\<close>.\<close>

datatype suspended = InClosedState int | InHalfOpenState int

definition ClosedState_callService_begin ::
  "CircuitBreaker \<Rightarrow> clock \<Rightarrow> ('e, suspended) gate \<times> CircuitBreaker \<times> clock" where
  "ClosedState_callService_begin ctx clk =
     (let (startTime, clk1) = Date_now clk
      in (Invoked (InClosedState startTime), ctx, clk1))"

definition ClosedState_callService_resume ::
  "int \<Rightarrow> CircuitBreaker \<Rightarrow> clock \<Rightarrow> ('a, 'e) outcome \<Rightarrow> ('e error + 'a) \<times> CircuitBreaker \<times> clock" where
  "ClosedState_callService_resume startTime ctx clk settled =
     (case settled of
        Resolves result \<Rightarrow>
          (let (endTime, clk1) = Date_now clk;
               ctx1 = recordResponseTime ctx (endTime - startTime);
               ctx2 = ClosedState_onSuccess ctx1
           in (Inr result, ctx2, clk1))
      | Rejects err \<Rightarrow>
          (let (endTime, clk1) = Date_now clk;
               ctx1 = recordResponseTime ctx (endTime - startTime);
               (ctx2, clk2) = ClosedState_onFailure ctx1 clk1
           in (Inl (ServiceError err), ctx2, clk2))
      | RejectsNullish \<Rightarrow> (Inl TypeError, ctx, clk))"

subsection \<open>HalfOpenState\<close>

definition HalfOpenState_onSuccess :: "CircuitBreaker \<Rightarrow> CircuitBreaker" where
  "HalfOpenState_onSuccess ctx = reset (setState ctx ClosedState)"

definition HalfOpenState_onFailure :: "CircuitBreaker \<Rightarrow> CircuitBreaker" where
  "HalfOpenState_onFailure ctx = setState ctx OpenState"

definition HalfOpenState_callService_begin ::
  "CircuitBreaker \<Rightarrow> clock \<Rightarrow> ('e, suspended) gate \<times> CircuitBreaker \<times> clock" where
  "HalfOpenState_callService_begin ctx clk =
     (if halfOpenRequestCount ctx \<ge> maxHalfOpenRequests (config ctx)
      then (Rejected ProbeLimitExceededError, setState ctx OpenState, clk)
      else
        (let ctx1 = incrementHalfOpenRequest ctx;
             (startTime, clk1) = Date_now clk
         in (Invoked (InHalfOpenState startTime), ctx1, clk1)))"

definition HalfOpenState_callService_resume ::
  "int \<Rightarrow> CircuitBreaker \<Rightarrow> clock \<Rightarrow> ('a, 'e) outcome \<Rightarrow> ('e error + 'a) \<times> CircuitBreaker \<times> clock" where
  "HalfOpenState_callService_resume startTime ctx clk settled =
     (case settled of
        Resolves result \<Rightarrow>
          (let (endTime, clk1) = Date_now clk;
               ctx1 = recordResponseTime ctx (endTime - startTime);
               ctx2 = HalfOpenState_onSuccess ctx1
           in (Inr result, ctx2, clk1))
      | Rejects err \<Rightarrow>
          (let (endTime, clk1) = Date_now clk;
               ctx1 = recordResponseTime ctx (endTime - startTime);
               ctx2 = HalfOpenState_onFailure ctx1
           in (Inl (ServiceError err), ctx2, clk1))
      | RejectsNullish \<Rightarrow> (Inl TypeError, ctx, clk))"

subsection \<open>OpenState\<close>

text \<open>
  \<^verbatim>\<open>OpenState.callService\<close> never awaits the service itself. Once the timeout has
  passed it sets the state to a \<^verbatim>\<open>HalfOpenState\<close> and returns
  \<^verbatim>\<open>context.callService(service)\<close>, which dispatches on the state just set, that
  is to \<^verbatim>\<open>HalfOpenState.callService\<close>.
\<close>

text \<open>Both callbacks of \<^verbatim>\<open>OpenState\<close> are empty, and nothing calls them.\<close>

definition OpenState_onSuccess :: "CircuitBreaker \<Rightarrow> CircuitBreaker" where
  "OpenState_onSuccess ctx = ctx"

definition OpenState_onFailure :: "CircuitBreaker \<Rightarrow> CircuitBreaker" where
  "OpenState_onFailure ctx = ctx"

definition OpenState_callService_begin ::
  "CircuitBreaker \<Rightarrow> clock \<Rightarrow> ('e, suspended) gate \<times> CircuitBreaker \<times> clock" where
  "OpenState_callService_begin ctx clk =
     (let (startTime, clk1) = Date_now clk;
          (now, clk2) = Date_now clk1
      in if timeoutElapsed (lastFailureTime ctx) now (timeout (config ctx))
         then HalfOpenState_callService_begin (setState ctx HalfOpenState) clk2
         else
           (let (endTime, clk3) = Date_now clk2
            in (Rejected CircuitOpenError, recordResponseTime ctx (endTime - startTime), clk3)))"

subsection \<open>CircuitBreaker.callService\<close>

definition callService_begin ::
  "CircuitBreaker \<Rightarrow> clock \<Rightarrow> ('e, suspended) gate \<times> CircuitBreaker \<times> clock" where
  "callService_begin ctx clk =
     (case state ctx of
        ClosedState \<Rightarrow> ClosedState_callService_begin ctx clk
      | OpenState \<Rightarrow> OpenState_callService_begin ctx clk
      | HalfOpenState \<Rightarrow> HalfOpenState_callService_begin ctx clk)"

definition callService_resume ::
  "suspended \<Rightarrow> CircuitBreaker \<Rightarrow> clock \<Rightarrow> ('a, 'e) outcome \<Rightarrow> ('e error + 'a) \<times> CircuitBreaker \<times> clock" where
  "callService_resume frame ctx clk settled =
     (case frame of
        InClosedState startTime \<Rightarrow> ClosedState_callService_resume startTime ctx clk settled
      | InHalfOpenState startTime \<Rightarrow> HalfOpenState_callService_resume startTime ctx clk settled)"

text \<open>One call from start to end, the service settling to \<open>settled\<close> if it is called.\<close>

definition callService ::
  "CircuitBreaker \<Rightarrow> clock \<Rightarrow> ('a, 'e) outcome \<Rightarrow> ('e error + 'a, CircuitBreaker) completed" where
  "callService ctx clk settled =
     (case callService_begin ctx clk of
        (Rejected err, ctx1, clk1) \<Rightarrow>
          \<lparr>reply = Inl err, invocations = 0, breaker = ctx1, clock_after = clk1\<rparr>
      | (Invoked frame, ctx1, clk1) \<Rightarrow>
          (case callService_resume frame ctx1 clk1 settled of
             (r, ctx2, clk2) \<Rightarrow>
               \<lparr>reply = r, invocations = 1, breaker = ctx2, clock_after = clk2\<rparr>))"

text \<open>
  A series of calls, each awaited before the next is made (as the loop of
  \<^verbatim>\<open>runWithCircuitBreaker\<close> does, which also swallows the errors). The result lists
  each call's reply and number of service invocations.
\<close>

fun run ::
  "CircuitBreaker \<Rightarrow> clock \<Rightarrow> ('a, 'e) outcome list \<Rightarrow>
     (('e error + 'a) \<times> nat) list \<times> CircuitBreaker \<times> clock" where
  "run ctx clk [] = ([], ctx, clk)"
| "run ctx clk (settled # rest) =
     (let c = callService ctx clk settled;
          (rs, ctx', clk') = run (breaker c) (clock_after c) rest
      in ((reply c, invocations c) # rs, ctx', clk'))"

section \<open>The implementation with the state in an enum field\<close>

record CircuitBreakerE =
  stateE :: CircuitBreakerState
  failureCountE :: int
  lastFailureTimeE :: "int option"
  configE :: CircuitBreakerConfig
  responseTimesE :: "int list"

definition CircuitBreakerE_new :: "CircuitBreakerConfig \<Rightarrow> CircuitBreakerE" where
  "CircuitBreakerE_new cfg =
     \<lparr>stateE = CLOSED, failureCountE = 0, lastFailureTimeE = None, configE = cfg,
      responseTimesE = []\<rparr>"

definition resetE :: "CircuitBreakerE \<Rightarrow> CircuitBreakerE" where
  "resetE cb = cb\<lparr>failureCountE := 0, lastFailureTimeE := None\<rparr>"

definition onSuccessE :: "CircuitBreakerE \<Rightarrow> CircuitBreakerE" where
  "onSuccessE cb =
     (if stateE cb = HALF_OPEN then resetE (cb\<lparr>stateE := CLOSED\<rparr>)
      else if stateE cb = CLOSED then resetE cb
      else cb)"

definition onFailureE :: "CircuitBreakerE \<Rightarrow> clock \<Rightarrow> CircuitBreakerE \<times> clock" where
  "onFailureE cb clk =
     (let cb1 = cb\<lparr>failureCountE := failureCountE cb + 1\<rparr>;
          (now, clk1) = Date_now clk;
          cb2 = cb1\<lparr>lastFailureTimeE := Some now\<rparr>
      in if stateE cb2 = CLOSED \<and> failureCountE cb2 \<ge> failureThreshold (configE cb2)
         then (cb2\<lparr>stateE := OPEN\<rparr>, clk1)
         else if stateE cb2 = HALF_OPEN
         then (cb2\<lparr>stateE := OPEN\<rparr>, clk1)
         else (cb2, clk1))"

text \<open>The frame of a suspended call holds \<^verbatim>\<open>startTime\<close> only.\<close>

definition callServiceE_begin ::
  "CircuitBreakerE \<Rightarrow> clock \<Rightarrow> ('e, int) gate \<times> CircuitBreakerE \<times> clock" where
  "callServiceE_begin cb clk =
     (let (startTime, clk1) = Date_now clk
      in if stateE cb = OPEN
         then
           (let (now, clk2) = Date_now clk1
            in if timeoutElapsed (lastFailureTimeE cb) now (timeout (configE cb))
               then (Invoked startTime, cb\<lparr>stateE := HALF_OPEN\<rparr>, clk2)
               else
                 (let (endTime, clk3) = Date_now clk2
                  in (Rejected CircuitOpenError,
                      cb\<lparr>responseTimesE := responseTimesE cb @ [endTime - startTime]\<rparr>,
                      clk3)))
         else (Invoked startTime, cb, clk1))"

definition callServiceE_resume ::
  "int \<Rightarrow> CircuitBreakerE \<Rightarrow> clock \<Rightarrow> ('a, 'e) outcome \<Rightarrow> ('e error + 'a) \<times> CircuitBreakerE \<times> clock" where
  "callServiceE_resume startTime cb clk settled =
     (case settled of
        Resolves result \<Rightarrow>
          (let (endTime, clk1) = Date_now clk;
               cb1 = cb\<lparr>responseTimesE := responseTimesE cb @ [endTime - startTime]\<rparr>;
               cb2 = onSuccessE cb1
           in (Inr result, cb2, clk1))
      | Rejects err \<Rightarrow>
          (let (endTime, clk1) = Date_now clk;
               cb1 = cb\<lparr>responseTimesE := responseTimesE cb @ [endTime - startTime]\<rparr>;
               (cb2, clk2) = onFailureE cb1 clk1
           in (Inl (ServiceError err), cb2, clk2))
      | RejectsNullish \<Rightarrow> (Inl TypeError, cb, clk))"

definition callServiceE ::
  "CircuitBreakerE \<Rightarrow> clock \<Rightarrow> ('a, 'e) outcome \<Rightarrow> ('e error + 'a, CircuitBreakerE) completed" where
  "callServiceE cb clk settled =
     (case callServiceE_begin cb clk of
        (Rejected err, cb1, clk1) \<Rightarrow>
          \<lparr>reply = Inl err, invocations = 0, breaker = cb1, clock_after = clk1\<rparr>
      | (Invoked startTime, cb1, clk1) \<Rightarrow>
          (case callServiceE_resume startTime cb1 clk1 settled of
             (r, cb2, clk2) \<Rightarrow>
               \<lparr>reply = r, invocations = 1, breaker = cb2, clock_after = clk2\<rparr>))"

fun runE ::
  "CircuitBreakerE \<Rightarrow> clock \<Rightarrow> ('a, 'e) outcome list \<Rightarrow>
     (('e error + 'a) \<times> nat) list \<times> CircuitBreakerE \<times> clock" where
  "runE cb clk [] = ([], cb, clk)"
| "runE cb clk (settled # rest) =
     (let c = callServiceE cb clk settled;
          (rs, cb', clk') = runE (breaker c) (clock_after c) rest
      in ((reply c, invocations c) # rs, cb', clk'))"

section \<open>Notions used in the statements\<close>

text \<open>The replies of a series of calls, and the breaker it leaves.\<close>

definition run_replies ::
  "CircuitBreaker \<Rightarrow> clock \<Rightarrow> ('a, 'e) outcome list \<Rightarrow> (('e error + 'a) \<times> nat) list" where
  "run_replies ctx clk calls = fst (run ctx clk calls)"

definition run_breaker ::
  "CircuitBreaker \<Rightarrow> clock \<Rightarrow> ('a, 'e) outcome list \<Rightarrow> CircuitBreaker" where
  "run_breaker ctx clk calls = fst (snd (run ctx clk calls))"

definition runE_replies ::
  "CircuitBreakerE \<Rightarrow> clock \<Rightarrow> ('a, 'e) outcome list \<Rightarrow> (('e error + 'a) \<times> nat) list" where
  "runE_replies cb clk calls = fst (runE cb clk calls)"

definition runE_breaker ::
  "CircuitBreakerE \<Rightarrow> clock \<Rightarrow> ('a, 'e) outcome list \<Rightarrow> CircuitBreakerE" where
  "runE_breaker cb clk calls = fst (snd (runE cb clk calls))"

text \<open>
  The service fails with a value: its promise is rejected, and not with
  \<^verbatim>\<open>null\<close> or \<^verbatim>\<open>undefined\<close>.
\<close>

definition fails_with_value :: "('a, 'e) outcome \<Rightarrow> bool" where
  "fails_with_value settled =
     (case settled of Resolves _ \<Rightarrow> False | Rejects _ \<Rightarrow> True | RejectsNullish \<Rightarrow> False)"

text \<open>
  Calls started one after the other with none of them resumed: every service
  invoked is still pending when the next call is made.
\<close>

fun begin_many ::
  "nat \<Rightarrow> CircuitBreaker \<Rightarrow> clock \<Rightarrow> ('e, suspended) gate list \<times> CircuitBreaker \<times> clock" where
  "begin_many 0 ctx clk = ([], ctx, clk)"
| "begin_many (Suc n) ctx clk =
     (case callService_begin ctx clk of
        (g, ctx1, clk1) \<Rightarrow>
          (case begin_many n ctx1 clk1 of
             (gs, ctx2, clk2) \<Rightarrow> (g # gs, ctx2, clk2)))"


text \<open>
  The breaker is open and its half-open request count has reached the limit.
\<close>

definition exhausted :: "CircuitBreaker \<Rightarrow> bool" where
  "exhausted ctx =
     (state ctx = OpenState \<and> halfOpenRequestCount ctx \<ge> maxHalfOpenRequests (config ctx))"

text \<open>
  The fields the two implementations share hold the same values.
\<close>

definition agree :: "CircuitBreaker \<Rightarrow> CircuitBreakerE \<Rightarrow> bool" where
  "agree ctx cb =
     (getState ctx = stateE cb \<and> failureCount ctx = failureCountE cb
      \<and> lastFailureTime ctx = lastFailureTimeE cb \<and> config ctx = configE cb
      \<and> responseTimes ctx = responseTimesE cb)"

text \<open>
  A call is handled without the half-open rules when it finds the breaker closed, or
  open with the timeout not yet elapsed at the reading \<^verbatim>\<open>now\<close> (the second of the
  call). \<open>no_probe\<close> says so of every call of a series.
\<close>

definition plain_call :: "CircuitBreaker \<Rightarrow> clock \<Rightarrow> bool" where
  "plain_call ctx clk =
     (if state ctx = ClosedState then True
      else if state ctx = OpenState
      then \<not> timeoutElapsed (lastFailureTime ctx) (clk 1) (timeout (config ctx))
      else False)"

fun no_probe :: "CircuitBreaker \<Rightarrow> clock \<Rightarrow> ('a, 'e) outcome list \<Rightarrow> bool" where
  "no_probe ctx clk [] = True"
| "no_probe ctx clk (settled # rest) =
     (plain_call ctx clk
      \<and> no_probe (breaker (callService ctx clk settled))
                   (clock_after (callService ctx clk settled)) rest)"

subsection \<open>A concrete scenario\<close>

text \<open>
  A breaker that trips at the first failure, waits 10 ms and allows one half-open
  request; a clock whose readings are 100 ms apart.
\<close>

definition cfg0 :: CircuitBreakerConfig where
  "cfg0 = \<lparr>failureThreshold = 1, timeout = 10, maxHalfOpenRequests = 1\<rparr>"

definition clock0 :: clock where
  "clock0 k = 100 * (int k + 1)"

text \<open>A clock that stands still at \<open>t\<close>.\<close>

definition frozen_clock :: "int \<Rightarrow> clock" where
  "frozen_clock t k = t"

text \<open>
  The breaker of each implementation after one failed call on \<open>clock0\<close>: open,
  the failure recorded at the third reading.
\<close>

definition tripped0 :: CircuitBreaker where
  "tripped0 =
     \<lparr>state = OpenState, failureCount = 1, lastFailureTime = Some 300, config = cfg0,
      responseTimes = [100], halfOpenRequestCount = 0\<rparr>"

definition trippedE0 :: CircuitBreakerE where
  "trippedE0 =
     \<lparr>stateE = OPEN, failureCountE = 1, lastFailureTimeE = Some 300, configE = cfg0,
      responseTimesE = [100]\<rparr>"

text \<open>
  The breaker of each implementation after a second failed call on the same clock.
  The call is made after the timeout and so is a half-open request.
\<close>

definition probed0 :: CircuitBreaker where
  "probed0 =
     \<lparr>state = OpenState, failureCount = 1, lastFailureTime = Some 300, config = cfg0,
      responseTimes = [100, 100], halfOpenRequestCount = 1\<rparr>"

text \<open>
  The breaker with handlers after a half-open request made at 900 on \<open>tripped0\<close>
  has succeeded.
\<close>

definition recovered0 :: CircuitBreaker where
  "recovered0 =
     \<lparr>state = ClosedState, failureCount = 0, lastFailureTime = None, config = cfg0,
      responseTimes = [100, 0], halfOpenRequestCount = 0\<rparr>"

definition probedE0 :: CircuitBreakerE where
  "probedE0 =
     \<lparr>stateE = OPEN, failureCountE = 2, lastFailureTimeE = Some 700, configE = cfg0,
      responseTimesE = [100, 200]\<rparr>"

section \<open>One call, path by path\<close>

lemma frozen_clock_const: "(\<lambda>k. t) = frozen_clock t"
  by (rule ext) (simp add: frozen_clock_def)

text \<open>
  What one whole call does on each path through the handlers, first for the
  implementation with handlers, then for the one with the enum field. The clock
  readings are numbered from the start of the call.
\<close>

lemmas ctx_ops = setState_def reset_def recordResponseTime_def incrementHalfOpenRequest_def
  recordFailure_def Date_now_def
lemmas handler_defs = ClosedState_onSuccess_def ClosedState_onFailure_def
  ClosedState_callService_begin_def ClosedState_callService_resume_def
  HalfOpenState_onSuccess_def HalfOpenState_onFailure_def
  HalfOpenState_callService_begin_def HalfOpenState_callService_resume_def
  OpenState_callService_begin_def callService_begin_def callService_resume_def callService_def
lemmas enum_defs = resetE_def onSuccessE_def onFailureE_def callServiceE_begin_def
  callServiceE_resume_def callServiceE_def

lemma callService_Closed_Resolves:
  "state ctx = ClosedState \<Longrightarrow>
   callService ctx clk (Resolves v) =
     \<lparr>reply = Inr v, invocations = 1,
      breaker = reset (recordResponseTime ctx (clk 1 - clk 0)),
      clock_after = (\<lambda>k. clk (Suc (Suc k)))\<rparr>"
  by (simp add: handler_defs Date_now_def numeral_2_eq_2)

lemma callService_Closed_Rejects:
  "state ctx = ClosedState \<Longrightarrow>
   callService ctx clk (Rejects e) =
     \<lparr>reply = Inl (ServiceError e), invocations = 1,
      breaker =
        (let ctx1 = (recordResponseTime ctx (clk 1 - clk 0))
                      \<lparr>failureCount := failureCount ctx + 1, lastFailureTime := Some (clk 2)\<rparr>
         in if failureCount ctx + 1 \<ge> failureThreshold (config ctx)
            then setState ctx1 OpenState else ctx1),
      clock_after = (\<lambda>k. clk (Suc (Suc (Suc k))))\<rparr>"
  by (simp add: handler_defs ctx_ops Let_def numeral_2_eq_2)

lemma callService_Open_blocked:
  "state ctx = OpenState \<Longrightarrow>
   \<not> timeoutElapsed (lastFailureTime ctx) (clk 1) (timeout (config ctx)) \<Longrightarrow>
   callService ctx clk settled =
     \<lparr>reply = Inl CircuitOpenError, invocations = 0,
      breaker = recordResponseTime ctx (clk 2 - clk 0),
      clock_after = (\<lambda>k. clk (Suc (Suc (Suc k))))\<rparr>"
  by (simp add: handler_defs Date_now_def numeral_2_eq_2)

lemma callService_Open_elapsed:
  "state ctx = OpenState \<Longrightarrow>
   timeoutElapsed (lastFailureTime ctx) (clk 1) (timeout (config ctx)) \<Longrightarrow>
   callService ctx clk settled =
     callService (setState ctx HalfOpenState) (\<lambda>k. clk (Suc (Suc k))) settled"
  by (simp add: handler_defs Date_now_def setState_def)

lemma callService_HalfOpen_limit:
  "state ctx = HalfOpenState \<Longrightarrow>
   halfOpenRequestCount ctx \<ge> maxHalfOpenRequests (config ctx) \<Longrightarrow>
   callService ctx clk settled =
     \<lparr>reply = Inl ProbeLimitExceededError, invocations = 0,
      breaker = setState ctx OpenState, clock_after = clk\<rparr>"
  by (simp add: handler_defs)

lemma callService_HalfOpen_Resolves:
  "state ctx = HalfOpenState \<Longrightarrow>
   halfOpenRequestCount ctx < maxHalfOpenRequests (config ctx) \<Longrightarrow>
   callService ctx clk (Resolves v) =
     \<lparr>reply = Inr v, invocations = 1,
      breaker = reset (setState (recordResponseTime (incrementHalfOpenRequest ctx) (clk 1 - clk 0)) ClosedState),
      clock_after = (\<lambda>k. clk (Suc (Suc k)))\<rparr>"
  by (simp add: handler_defs Date_now_def numeral_2_eq_2)

lemma callService_HalfOpen_Rejects:
  "state ctx = HalfOpenState \<Longrightarrow>
   halfOpenRequestCount ctx < maxHalfOpenRequests (config ctx) \<Longrightarrow>
   callService ctx clk (Rejects e) =
     \<lparr>reply = Inl (ServiceError e), invocations = 1,
      breaker = setState (recordResponseTime (incrementHalfOpenRequest ctx) (clk 1 - clk 0)) OpenState,
      clock_after = (\<lambda>k. clk (Suc (Suc k)))\<rparr>"
  by (simp add: handler_defs Date_now_def numeral_2_eq_2)

lemma callService_Closed_RejectsNullish:
  "state ctx = ClosedState \<Longrightarrow>
   callService ctx clk RejectsNullish =
     \<lparr>reply = Inl TypeError, invocations = 1, breaker = ctx,
      clock_after = (\<lambda>k. clk (Suc k))\<rparr>"
  by (simp add: handler_defs Date_now_def)

lemma callService_HalfOpen_RejectsNullish:
  "state ctx = HalfOpenState \<Longrightarrow>
   halfOpenRequestCount ctx < maxHalfOpenRequests (config ctx) \<Longrightarrow>
   callService ctx clk RejectsNullish =
     \<lparr>reply = Inl TypeError, invocations = 1, breaker = incrementHalfOpenRequest ctx,
      clock_after = (\<lambda>k. clk (Suc k))\<rparr>"
  by (simp add: handler_defs Date_now_def)

lemma callServiceE_Open_blocked:
  "stateE cb = OPEN \<Longrightarrow>
   \<not> timeoutElapsed (lastFailureTimeE cb) (clk 1) (timeout (configE cb)) \<Longrightarrow>
   callServiceE cb clk settled =
     \<lparr>reply = Inl CircuitOpenError, invocations = 0,
      breaker = cb\<lparr>responseTimesE := responseTimesE cb @ [clk 2 - clk 0]\<rparr>,
      clock_after = (\<lambda>k. clk (Suc (Suc (Suc k))))\<rparr>"
  by (simp add: enum_defs Date_now_def numeral_2_eq_2)

lemma callServiceE_Closed_Resolves:
  "stateE cb = CLOSED \<Longrightarrow>
   callServiceE cb clk (Resolves v) =
     \<lparr>reply = Inr v, invocations = 1,
      breaker = resetE (cb\<lparr>responseTimesE := responseTimesE cb @ [clk 1 - clk 0]\<rparr>),
      clock_after = (\<lambda>k. clk (Suc (Suc k)))\<rparr>"
  by (simp add: enum_defs Date_now_def)

lemma callServiceE_Closed_Rejects:
  "stateE cb = CLOSED \<Longrightarrow>
   callServiceE cb clk (Rejects e) =
     \<lparr>reply = Inl (ServiceError e), invocations = 1,
      breaker =
        (let cb1 = cb\<lparr>responseTimesE := responseTimesE cb @ [clk 1 - clk 0],
                      failureCountE := failureCountE cb + 1,
                      lastFailureTimeE := Some (clk 2)\<rparr>
         in if failureCountE cb + 1 \<ge> failureThreshold (configE cb)
            then cb1\<lparr>stateE := OPEN\<rparr> else cb1),
      clock_after = (\<lambda>k. clk (Suc (Suc (Suc k))))\<rparr>"
  by (simp add: enum_defs Date_now_def Let_def numeral_2_eq_2)

lemma callServiceE_Open_elapsed_Resolves:
  "stateE cb = OPEN \<Longrightarrow>
   timeoutElapsed (lastFailureTimeE cb) (clk 1) (timeout (configE cb)) \<Longrightarrow>
   callServiceE cb clk (Resolves v) =
     \<lparr>reply = Inr v, invocations = 1,
      breaker = resetE (cb\<lparr>stateE := CLOSED,
                           responseTimesE := responseTimesE cb @ [clk 2 - clk 0]\<rparr>),
      clock_after = (\<lambda>k. clk (Suc (Suc (Suc k))))\<rparr>"
  by (simp add: enum_defs Date_now_def numeral_2_eq_2)

lemma callServiceE_Open_elapsed_Rejects:
  "stateE cb = OPEN \<Longrightarrow>
   timeoutElapsed (lastFailureTimeE cb) (clk 1) (timeout (configE cb)) \<Longrightarrow>
   callServiceE cb clk (Rejects e) =
     \<lparr>reply = Inl (ServiceError e), invocations = 1,
      breaker = cb\<lparr>stateE := OPEN,
                   responseTimesE := responseTimesE cb @ [clk 2 - clk 0],
                   failureCountE := failureCountE cb + 1,
                   lastFailureTimeE := Some (clk 3)\<rparr>,
      clock_after = (\<lambda>k. clk (Suc (Suc (Suc (Suc k)))))\<rparr>"
  by (simp add: enum_defs Date_now_def Let_def numeral_2_eq_2 numeral_3_eq_3)

lemma callServiceE_Closed_RejectsNullish:
  "stateE cb = CLOSED \<Longrightarrow>
   callServiceE cb clk RejectsNullish =
     \<lparr>reply = Inl TypeError, invocations = 1, breaker = cb,
      clock_after = (\<lambda>k. clk (Suc k))\<rparr>"
  by (simp add: enum_defs Date_now_def)

lemma callServiceE_Open_elapsed_RejectsNullish:
  "stateE cb = OPEN \<Longrightarrow>
   timeoutElapsed (lastFailureTimeE cb) (clk 1) (timeout (configE cb)) \<Longrightarrow>
   callServiceE cb clk RejectsNullish =
     \<lparr>reply = Inl TypeError, invocations = 1, breaker = cb\<lparr>stateE := HALF_OPEN\<rparr>,
      clock_after = (\<lambda>k. clk (Suc (Suc k)))\<rparr>"
  by (simp add: enum_defs Date_now_def)

text \<open>
  The enum implementation never reads \<open>maxHalfOpenRequests\<close>: a call that finds the
  breaker half-open (another call is in flight) invokes the service.
\<close>

lemma callServiceE_begin_HALF_OPEN:
  "stateE cb = HALF_OPEN \<Longrightarrow>
   callServiceE_begin cb clk = (Invoked (clk 0), cb, (\<lambda>k. clk (Suc k)))"
  by (simp add: callServiceE_begin_def Date_now_def)

section \<open>The scenario, call by call\<close>

lemma first_call:
  "callService (CircuitBreaker_new cfg0) clock0 (Rejects e) =
     \<lparr>reply = Inl (ServiceError e), invocations = 1, breaker = tripped0,
      clock_after = (\<lambda>k. clock0 (k + 3))\<rparr>"
  by (simp add: callService_Closed_Rejects CircuitBreaker_new_def cfg0_def clock0_def
      tripped0_def ctx_ops numeral_3_eq_3)

lemma first_call_enum:
  "callServiceE (CircuitBreakerE_new cfg0) clock0 (Rejects e) =
     \<lparr>reply = Inl (ServiceError e), invocations = 1, breaker = trippedE0,
      clock_after = (\<lambda>k. clock0 (k + 3))\<rparr>"
  by (simp add: callServiceE_Closed_Rejects CircuitBreakerE_new_def cfg0_def clock0_def
      trippedE0_def numeral_3_eq_3)

lemma second_call:
  "callService tripped0 (\<lambda>k. clock0 (k + 3)) (Rejects e) =
     \<lparr>reply = Inl (ServiceError e), invocations = 1, breaker = probed0,
      clock_after = (\<lambda>k. clock0 (k + 7))\<rparr>"
  by (simp add: callService_Open_elapsed callService_HalfOpen_Rejects tripped0_def probed0_def
      cfg0_def clock0_def timeoutElapsed_def ctx_ops add.commute)

lemma second_call_enum:
  "callServiceE trippedE0 (\<lambda>k. clock0 (k + 3)) (Rejects e) =
     \<lparr>reply = Inl (ServiceError e), invocations = 1, breaker = probedE0,
      clock_after = (\<lambda>k. clock0 (k + 7))\<rparr>"
  by (simp add: callServiceE_Open_elapsed_Rejects trippedE0_def probedE0_def
      cfg0_def clock0_def timeoutElapsed_def add.commute)

lemma third_call_rejected:
  "callService probed0 (\<lambda>k. clock0 (k + 7)) settled =
     \<lparr>reply = Inl ProbeLimitExceededError, invocations = 0, breaker = probed0,
      clock_after = (\<lambda>k. clock0 (k + 9))\<rparr>"
  by (simp add: callService_Open_elapsed callService_HalfOpen_limit probed0_def
      cfg0_def clock0_def timeoutElapsed_def ctx_ops add.commute)

lemma third_call_enum:
  "callServiceE probedE0 (\<lambda>k. clock0 (k + 7)) (Resolves v) =
     \<lparr>reply = Inr v, invocations = 1,
      breaker = \<lparr>stateE = CLOSED, failureCountE = 0, lastFailureTimeE = None, configE = cfg0,
                 responseTimesE = [100, 200, 200]\<rparr>,
      clock_after = (\<lambda>k. clock0 (k + 10))\<rparr>"
  by (simp add: callServiceE_Open_elapsed_Resolves probedE0_def resetE_def
      cfg0_def clock0_def timeoutElapsed_def add.commute)

section \<open>Resetting the counters\<close>

text \<open>
  C10. \<^verbatim>\<open>reset()\<close> sets \<open>failureCount\<close> to 0, clears \<open>lastFailureTime\<close> and
  sets \<open>halfOpenRequestCount\<close> to 0, and leaves the state, the response times and
  the configuration as they are, whatever the breaker it is applied to. The
  \<^verbatim>\<open>reset()\<close> of the enum implementation does the same on the fields that
  implementation has (it keeps no half-open request count).
\<close>

theorem reset_clears_counters_only:
  "failureCount (reset ctx) = 0 \<and> lastFailureTime (reset ctx) = None
   \<and> halfOpenRequestCount (reset ctx) = 0
   \<and> state (reset ctx) = state ctx \<and> responseTimes (reset ctx) = responseTimes ctx
   \<and> config (reset ctx) = config ctx
   \<and> failureCountE (resetE cb) = 0 \<and> lastFailureTimeE (resetE cb) = None
   \<and> stateE (resetE cb) = stateE cb \<and> responseTimesE (resetE cb) = responseTimesE cb
   \<and> configE (resetE cb) = configE cb"
  by (simp add: reset_def resetE_def)

section \<open>Calls while the breaker is open\<close>

text \<open>
  C9. A breaker that is open, with a last failure time \<open>t\<close>, and is called when
  the reading \<^verbatim>\<open>now\<close> (the second of the call) is less than \<open>timeout\<close> after
  \<open>t\<close>: the call fails with the open-circuit error, the service is not invoked,
  and the breaker is as before but for one more response time, the third reading
  minus the first. This holds in both implementations.
\<close>

theorem open_call_before_timeout_is_blocked:
  "(state ctx = OpenState \<and> lastFailureTime ctx = Some t
      \<and> clk 1 - t < timeout (config ctx) \<longrightarrow>
    callService ctx clk settled =
      \<lparr>reply = Inl CircuitOpenError, invocations = 0,
       breaker = ctx\<lparr>responseTimes := responseTimes ctx @ [clk 2 - clk 0]\<rparr>,
       clock_after = (\<lambda>k. clk (k + 3))\<rparr>)
   \<and> (stateE cb = OPEN \<and> lastFailureTimeE cb = Some t
      \<and> clk 1 - t < timeout (configE cb) \<longrightarrow>
    callServiceE cb clk settled =
      \<lparr>reply = Inl CircuitOpenError, invocations = 0,
       breaker = cb\<lparr>responseTimesE := responseTimesE cb @ [clk 2 - clk 0]\<rparr>,
       clock_after = (\<lambda>k. clk (k + 3))\<rparr>)"
  by (simp add: callService_Open_blocked callServiceE_Open_blocked timeoutElapsed_def
      recordResponseTime_def numeral_3_eq_3)

theorem open_call_before_timeout_is_blocked_witness:
  "state tripped0 = OpenState \<and> lastFailureTime tripped0 = Some 300
   \<and> frozen_clock 305 1 - 300 < timeout (config tripped0)
   \<and> callService tripped0 (frozen_clock 305) (Resolves True :: (bool, unit) outcome) =
      \<lparr>reply = Inl CircuitOpenError, invocations = 0,
       breaker = tripped0\<lparr>responseTimes := [100, 0]\<rparr>,
       clock_after = (\<lambda>k. frozen_clock 305 (k + 3))\<rparr>
   \<and> stateE trippedE0 = OPEN \<and> lastFailureTimeE trippedE0 = Some 300
   \<and> frozen_clock 305 1 - 300 < timeout (configE trippedE0)
   \<and> callServiceE trippedE0 (frozen_clock 305) (Resolves True :: (bool, unit) outcome) =
      \<lparr>reply = Inl CircuitOpenError, invocations = 0,
       breaker = trippedE0\<lparr>responseTimesE := [100, 0]\<rparr>,
       clock_after = (\<lambda>k. frozen_clock 305 (k + 3))\<rparr>"
  using open_call_before_timeout_is_blocked
    [of tripped0 300 "frozen_clock 305" "Resolves True :: (bool, unit) outcome" trippedE0]
  by (simp add: tripped0_def trippedE0_def cfg0_def frozen_clock_def)

section \<open>The half-open request limit\<close>










lemma exhausted_callService:
  assumes "exhausted ctx"
  shows "exhausted (breaker (callService ctx clk settled))
    \<and> invocations (callService ctx clk settled) = 0
    \<and> (reply (callService ctx clk settled) = Inl CircuitOpenError
        \<or> reply (callService ctx clk settled) = Inl ProbeLimitExceededError)"
proof (cases "timeoutElapsed (lastFailureTime ctx) (clk 1) (timeout (config ctx))")
  case True
  then show ?thesis
    using assms
    by (simp add: exhausted_def callService_Open_elapsed callService_HalfOpen_limit setState_def)
next
  case False
  then show ?thesis
    using assms
    by (simp add: exhausted_def callService_Open_blocked recordResponseTime_def)
qed

lemma probe_limit_reply_exhausted:
  assumes "reply (callService ctx clk settled) = Inl ProbeLimitExceededError"
  shows "exhausted (breaker (callService ctx clk settled))"
proof -
  have half: "exhausted (breaker (callService c k settled))"
    if "state c = HalfOpenState" "reply (callService c k settled) = Inl ProbeLimitExceededError"
    for c k
  proof (cases "halfOpenRequestCount c \<ge> maxHalfOpenRequests (config c)")
    case True
    with that show ?thesis
      by (simp add: callService_HalfOpen_limit exhausted_def setState_def)
  next
    case False
    with that show ?thesis
      by (cases settled)
        (simp_all add: callService_HalfOpen_Resolves callService_HalfOpen_Rejects
          callService_HalfOpen_RejectsNullish)
  qed
  show ?thesis
  proof (cases "state ctx")
    case ClosedState
    with assms show ?thesis
      by (cases settled)
        (simp_all add: callService_Closed_Resolves callService_Closed_Rejects
          callService_Closed_RejectsNullish)
  next
    case OpenState
    show ?thesis
    proof (cases "timeoutElapsed (lastFailureTime ctx) (clk 1) (timeout (config ctx))")
      case True
      with OpenState assms show ?thesis
        using half[of "setState ctx HalfOpenState" "\<lambda>k. clk (Suc (Suc k))"]
        by (simp add: callService_Open_elapsed setState_def)
    next
      case False
      with OpenState assms show ?thesis
        by (simp add: callService_Open_blocked)
    qed
  next
    case HalfOpenState
    then show ?thesis using assms by (rule half)
  qed
qed

lemma exhausted_run:
  "exhausted ctx \<Longrightarrow>
   list_all (\<lambda>(r, n). n = 0 \<and> (r = Inl CircuitOpenError \<or> r = Inl ProbeLimitExceededError))
     (fst (run ctx clk later))"
proof (induction later arbitrary: ctx clk)
  case Nil
  then show ?case by simp
next
  case (Cons settled later)
  from exhausted_callService[OF Cons.prems, of clk settled]
  show ?case
    using Cons.IH[of "breaker (callService ctx clk settled)" "clock_after (callService ctx clk settled)"]
    by (simp add: Let_def case_prod_beta)
qed

text \<open>
  C5, for calls made one at a time. In the implementation with handlers, once a
  call has been rejected with the probe-limit error, no later call of a series in
  which each call is awaited before the next invokes the service: each of them
  fails with the open-circuit error or with the probe-limit error, whatever the
  clock and whatever the service would have done. (When each call is awaited, no
  admitted call is pending at the time of the rejection.)
\<close>

theorem no_execution_after_probe_limit_rejection:
  assumes "reply (callService ctx clk settled) = Inl ProbeLimitExceededError"
  shows "list_all (\<lambda>(r, n). n = 0 \<and> (r = Inl CircuitOpenError \<or> r = Inl ProbeLimitExceededError))
     (fst (run (breaker (callService ctx clk settled)) clk' later))"
  using assms by (intro exhausted_run probe_limit_reply_exhausted)

theorem no_execution_after_probe_limit_rejection_witness:
  "reply (callService probed0 (\<lambda>k. clock0 (k + 7)) (Resolves True :: (bool, unit) outcome))
     = Inl ProbeLimitExceededError
   \<and> list_all (\<lambda>(r, n). n = 0 \<and> (r = Inl CircuitOpenError \<or> r = Inl ProbeLimitExceededError))
       (fst (run (breaker (callService probed0 (\<lambda>k. clock0 (k + 7))
                    (Resolves True :: (bool, unit) outcome)))
              (frozen_clock 305) [Resolves True, Rejects (), Resolves False]))"
  using no_execution_after_probe_limit_rejection
    [of probed0 "\<lambda>k. clock0 (k + 7)" "Resolves True :: (bool, unit) outcome"
        "frozen_clock 305" "[Resolves True, Rejects (), Resolves False]"]
  by (simp add: third_call_rejected)

text \<open>
  C5, as stated of any later call, fails when a call admitted earlier is still
  pending at the time of the rejection. On \<open>tripped0\<close> at 900 a first call is
  admitted as a half-open request and a second, made before the first has settled,
  is rejected with the probe-limit error and sets the state to open. The pending
  service then resolves: \<^verbatim>\<open>HalfOpenState.onSuccess\<close> sets the state to closed and
  resets the counters, and the next call invokes the service.
\<close>

theorem pending_probe_reopens_counterexample:
  "(begin_many (Suc (Suc 0)) tripped0 (frozen_clock 900)
      :: (unit, suspended) gate list \<times> CircuitBreaker \<times> clock) =
     ([Invoked (InHalfOpenState 900), Rejected ProbeLimitExceededError],
      tripped0\<lparr>halfOpenRequestCount := 1\<rparr>, frozen_clock 900)
   \<and> callService_resume (InHalfOpenState 900) (tripped0\<lparr>halfOpenRequestCount := 1\<rparr>)
        (frozen_clock 900) (Resolves True :: (bool, unit) outcome) =
      (Inr True, recovered0, frozen_clock 900)
   \<and> callService recovered0 (frozen_clock 900) (Resolves True :: (bool, unit) outcome) =
      \<lparr>reply = Inr True, invocations = 1,
       breaker = recovered0\<lparr>responseTimes := [100, 0, 0]\<rparr>,
       clock_after = frozen_clock 900\<rparr>"
proof -
  have "(begin_many (Suc (Suc 0)) tripped0 (frozen_clock 900)
      :: (unit, suspended) gate list \<times> CircuitBreaker \<times> clock) =
     ([Invoked (InHalfOpenState 900), Rejected ProbeLimitExceededError],
      tripped0\<lparr>halfOpenRequestCount := 1\<rparr>, frozen_clock 900)"
    by (simp add: tripped0_def cfg0_def timeoutElapsed_def callService_begin_def
        OpenState_callService_begin_def HalfOpenState_callService_begin_def setState_def
        incrementHalfOpenRequest_def Date_now_def frozen_clock_def frozen_clock_const)
  moreover have "callService_resume (InHalfOpenState 900) (tripped0\<lparr>halfOpenRequestCount := 1\<rparr>)
        (frozen_clock 900) (Resolves True :: (bool, unit) outcome) =
      (Inr True, recovered0, frozen_clock 900)"
    by (simp add: tripped0_def recovered0_def callService_resume_def
        HalfOpenState_callService_resume_def HalfOpenState_onSuccess_def ctx_ops
        frozen_clock_def frozen_clock_const)
  moreover have "callService recovered0 (frozen_clock 900) (Resolves True :: (bool, unit) outcome) =
      \<lparr>reply = Inr True, invocations = 1,
       breaker = recovered0\<lparr>responseTimes := [100, 0, 0]\<rparr>,
       clock_after = frozen_clock 900\<rparr>"
    by (simp add: callService_Closed_Resolves recovered0_def ctx_ops
        frozen_clock_def frozen_clock_const)
  ultimately show ?thesis
    by simp
qed

section \<open>Series of calls\<close>

lemma run_breaker_Nil: "run_breaker ctx clk [] = ctx"
  by (simp add: run_breaker_def)

lemma run_breaker_Cons:
  "run_breaker ctx clk (settled # rest) =
     run_breaker (breaker (callService ctx clk settled))
       (clock_after (callService ctx clk settled)) rest"
  by (simp add: run_breaker_def Let_def case_prod_beta)

lemma run_replies_Nil: "run_replies ctx clk [] = []"
  by (simp add: run_replies_def)

lemma run_replies_Cons:
  "run_replies ctx clk (settled # rest) =
     (reply (callService ctx clk settled), invocations (callService ctx clk settled))
       # run_replies (breaker (callService ctx clk settled))
           (clock_after (callService ctx clk settled)) rest"
  by (simp add: run_replies_def Let_def case_prod_beta)

lemma runE_breaker_Nil: "runE_breaker cb clk [] = cb"
  by (simp add: runE_breaker_def)

lemma runE_breaker_Cons:
  "runE_breaker cb clk (settled # rest) =
     runE_breaker (breaker (callServiceE cb clk settled))
       (clock_after (callServiceE cb clk settled)) rest"
  by (simp add: runE_breaker_def Let_def case_prod_beta)

lemma runE_replies_Nil: "runE_replies cb clk [] = []"
  by (simp add: runE_replies_def)

lemma runE_replies_Cons:
  "runE_replies cb clk (settled # rest) =
     (reply (callServiceE cb clk settled), invocations (callServiceE cb clk settled))
       # runE_replies (breaker (callServiceE cb clk settled))
           (clock_after (callServiceE cb clk settled)) rest"
  by (simp add: runE_replies_def Let_def case_prod_beta)

lemmas run_simps = run_breaker_Nil run_breaker_Cons run_replies_Nil run_replies_Cons
  runE_breaker_Nil runE_breaker_Cons runE_replies_Nil runE_replies_Cons

lemma failures_while_closed:
  "state ctx = ClosedState \<Longrightarrow> list_all fails_with_value calls \<Longrightarrow>
   failureCount ctx + int (length calls) \<le> failureThreshold (config ctx) \<Longrightarrow>
   state (run_breaker ctx clk calls) =
     (if calls \<noteq> [] \<and> failureCount ctx + int (length calls) = failureThreshold (config ctx)
      then OpenState else ClosedState)
   \<and> failureCount (run_breaker ctx clk calls) = failureCount ctx + int (length calls)"
proof (induction calls arbitrary: ctx clk)
  case Nil
  then show ?case by (simp add: run_simps)
next
  case (Cons settled calls)
  then obtain e where e: "settled = Rejects e"
    by (cases settled) (simp_all add: fails_with_value_def)
  let ?c = "callService ctx clk settled"
  show ?case
  proof (cases "calls = []")
    case True
    with Cons.prems show ?thesis
      by (auto simp add: e run_simps callService_Closed_Rejects Let_def ctx_ops)
  next
    case False
    with Cons.prems have small: "\<not> failureCount ctx + 1 \<ge> failureThreshold (config ctx)"
      by (cases calls) auto
    have c: "state (breaker ?c) = ClosedState" "failureCount (breaker ?c) = failureCount ctx + 1"
      "config (breaker ?c) = config ctx"
      using Cons.prems(1) small by (simp_all add: e callService_Closed_Rejects Let_def ctx_ops)
    have "failureCount (breaker ?c) + int (length calls) \<le> failureThreshold (config (breaker ?c))"
      using c Cons.prems(3) by simp
    with Cons.IH[of "breaker ?c" "clock_after ?c"] c(1) Cons.prems(2)
    have "state (run_breaker (breaker ?c) (clock_after ?c) calls) =
        (if calls \<noteq> [] \<and> failureCount (breaker ?c) + int (length calls)
              = failureThreshold (config (breaker ?c))
         then OpenState else ClosedState)
      \<and> failureCount (run_breaker (breaker ?c) (clock_after ?c) calls)
          = failureCount (breaker ?c) + int (length calls)"
      by simp
    then show ?thesis
      using False by (simp add: run_simps c add.assoc)
  qed
qed

lemma failures_while_closedE:
  "stateE cb = CLOSED \<Longrightarrow> list_all fails_with_value calls \<Longrightarrow>
   failureCountE cb + int (length calls) \<le> failureThreshold (configE cb) \<Longrightarrow>
   stateE (runE_breaker cb clk calls) =
     (if calls \<noteq> [] \<and> failureCountE cb + int (length calls) = failureThreshold (configE cb)
      then OPEN else CLOSED)
   \<and> failureCountE (runE_breaker cb clk calls) = failureCountE cb + int (length calls)"
proof (induction calls arbitrary: cb clk)
  case Nil
  then show ?case by (simp add: run_simps)
next
  case (Cons settled calls)
  then obtain e where e: "settled = Rejects e"
    by (cases settled) (simp_all add: fails_with_value_def)
  let ?c = "callServiceE cb clk settled"
  show ?case
  proof (cases "calls = []")
    case True
    with Cons.prems show ?thesis
      by (auto simp add: e run_simps callServiceE_Closed_Rejects Let_def)
  next
    case False
    with Cons.prems have small: "\<not> failureCountE cb + 1 \<ge> failureThreshold (configE cb)"
      by (cases calls) auto
    have c: "stateE (breaker ?c) = CLOSED" "failureCountE (breaker ?c) = failureCountE cb + 1"
      "configE (breaker ?c) = configE cb"
      using Cons.prems(1) small by (simp_all add: e callServiceE_Closed_Rejects Let_def)
    have "failureCountE (breaker ?c) + int (length calls) \<le> failureThreshold (configE (breaker ?c))"
      using c Cons.prems(3) by simp
    with Cons.IH[of "breaker ?c" "clock_after ?c"] c(1) Cons.prems(2)
    have "stateE (runE_breaker (breaker ?c) (clock_after ?c) calls) =
        (if calls \<noteq> [] \<and> failureCountE (breaker ?c) + int (length calls)
              = failureThreshold (configE (breaker ?c))
         then OPEN else CLOSED)
      \<and> failureCountE (runE_breaker (breaker ?c) (clock_after ?c) calls)
          = failureCountE (breaker ?c) + int (length calls)"
      by simp
    then show ?thesis
      using False by (simp add: run_simps c add.assoc)
  qed
qed

lemma list_all_take: "list_all P xs \<Longrightarrow> list_all P (take j xs)"
  by (induction xs arbitrary: j) (auto simp: take_Cons split: nat.splits)

text \<open>
  Failures that carry a value. Start from a closed breaker whose failure count is 0
  and make calls that all fail with a value other than \<^verbatim>\<open>null\<close> and
  \<^verbatim>\<open>undefined\<close>. As long as there are fewer of them than \<open>failureThreshold\<close>
  the breaker stays closed. When there are exactly \<open>failureThreshold\<close> of them
  (and at least one), the breaker is open after the last and was closed after each
  of the calls before it: it opens once, at the call that reaches the threshold.
  This holds in both implementations.
\<close>

lemma trips_exactly_at_threshold:
  "(state ctx = ClosedState \<and> failureCount ctx = 0 \<and> list_all fails_with_value calls \<longrightarrow>
      (int (length calls) < failureThreshold (config ctx) \<longrightarrow>
         state (run_breaker ctx clk calls) = ClosedState)
      \<and> (calls \<noteq> [] \<and> int (length calls) = failureThreshold (config ctx) \<longrightarrow>
         state (run_breaker ctx clk calls) = OpenState
         \<and> (\<forall>j<length calls. state (run_breaker ctx clk (take j calls)) = ClosedState)))
   \<and> (stateE cb = CLOSED \<and> failureCountE cb = 0 \<and> list_all fails_with_value calls \<longrightarrow>
      (int (length calls) < failureThreshold (configE cb) \<longrightarrow>
         stateE (runE_breaker cb clk calls) = CLOSED)
      \<and> (calls \<noteq> [] \<and> int (length calls) = failureThreshold (configE cb) \<longrightarrow>
         stateE (runE_breaker cb clk calls) = OPEN
         \<and> (\<forall>j<length calls. stateE (runE_breaker cb clk (take j calls)) = CLOSED)))"
proof -
  have a: "state (run_breaker ctx clk xs) =
      (if xs \<noteq> [] \<and> int (length xs) = failureThreshold (config ctx) then OpenState else ClosedState)"
    if "state ctx = ClosedState" "failureCount ctx = 0" "list_all fails_with_value xs"
      "int (length xs) \<le> failureThreshold (config ctx)"
    for xs :: "('a, 'b) outcome list"
    using failures_while_closed[of ctx xs clk] that by simp
  have b: "stateE (runE_breaker cb clk xs) =
      (if xs \<noteq> [] \<and> int (length xs) = failureThreshold (configE cb) then OPEN else CLOSED)"
    if "stateE cb = CLOSED" "failureCountE cb = 0" "list_all fails_with_value xs"
      "int (length xs) \<le> failureThreshold (configE cb)"
    for xs :: "('a, 'b) outcome list"
    using failures_while_closedE[of cb xs clk] that by simp
  show ?thesis
  proof (intro conjI impI allI; (elim conjE)?)
    assume "state ctx = ClosedState" "failureCount ctx = 0" "list_all fails_with_value calls"
      "int (length calls) < failureThreshold (config ctx)"
    then show "state (run_breaker ctx clk calls) = ClosedState"
      using a[of calls] by simp
  next
    assume "state ctx = ClosedState" "failureCount ctx = 0" "list_all fails_with_value calls"
      "calls \<noteq> []" "int (length calls) = failureThreshold (config ctx)"
    then show "state (run_breaker ctx clk calls) = OpenState"
      using a[of calls] by simp
  next
    fix j
    assume "state ctx = ClosedState" "failureCount ctx = 0" "list_all fails_with_value calls"
      "calls \<noteq> []" "int (length calls) = failureThreshold (config ctx)" "j < length calls"
    then show "state (run_breaker ctx clk (take j calls)) = ClosedState"
      using a[of "take j calls"] list_all_take[of fails_with_value calls j] by simp
  next
    assume "stateE cb = CLOSED" "failureCountE cb = 0" "list_all fails_with_value calls"
      "int (length calls) < failureThreshold (configE cb)"
    then show "stateE (runE_breaker cb clk calls) = CLOSED"
      using b[of calls] by simp
  next
    assume "stateE cb = CLOSED" "failureCountE cb = 0" "list_all fails_with_value calls"
      "calls \<noteq> []" "int (length calls) = failureThreshold (configE cb)"
    then show "stateE (runE_breaker cb clk calls) = OPEN"
      using b[of calls] by simp
  next
    fix j
    assume "stateE cb = CLOSED" "failureCountE cb = 0" "list_all fails_with_value calls"
      "calls \<noteq> []" "int (length calls) = failureThreshold (configE cb)" "j < length calls"
    then show "stateE (runE_breaker cb clk (take j calls)) = CLOSED"
      using b[of "take j calls"] list_all_take[of fails_with_value calls j] by simp
  qed
qed

lemma trips_exactly_at_threshold_example:
  "state (CircuitBreaker_new (cfg0\<lparr>failureThreshold := 3\<rparr>)) = ClosedState
   \<and> failureCount (CircuitBreaker_new (cfg0\<lparr>failureThreshold := 3\<rparr>)) = 0
   \<and> stateE (CircuitBreakerE_new (cfg0\<lparr>failureThreshold := 3\<rparr>)) = CLOSED
   \<and> failureCountE (CircuitBreakerE_new (cfg0\<lparr>failureThreshold := 3\<rparr>)) = 0
   \<and> list_all fails_with_value [Rejects (), Rejects () :: (bool, unit) outcome]
   \<and> int (length [Rejects (), Rejects () :: (bool, unit) outcome])
        < failureThreshold (config (CircuitBreaker_new (cfg0\<lparr>failureThreshold := 3\<rparr>)))
   \<and> state (run_breaker (CircuitBreaker_new (cfg0\<lparr>failureThreshold := 3\<rparr>)) clock0
               [Rejects (), Rejects () :: (bool, unit) outcome]) = ClosedState
   \<and> stateE (runE_breaker (CircuitBreakerE_new (cfg0\<lparr>failureThreshold := 3\<rparr>)) clock0
               [Rejects (), Rejects () :: (bool, unit) outcome]) = CLOSED
   \<and> list_all fails_with_value [Rejects (), Rejects (), Rejects () :: (bool, unit) outcome]
   \<and> int (length [Rejects (), Rejects (), Rejects () :: (bool, unit) outcome])
        = failureThreshold (config (CircuitBreaker_new (cfg0\<lparr>failureThreshold := 3\<rparr>)))
   \<and> state (run_breaker (CircuitBreaker_new (cfg0\<lparr>failureThreshold := 3\<rparr>)) clock0
               [Rejects (), Rejects (), Rejects () :: (bool, unit) outcome]) = OpenState
   \<and> stateE (runE_breaker (CircuitBreakerE_new (cfg0\<lparr>failureThreshold := 3\<rparr>)) clock0
               [Rejects (), Rejects (), Rejects () :: (bool, unit) outcome]) = OPEN"
  using trips_exactly_at_threshold
    [of "CircuitBreaker_new (cfg0\<lparr>failureThreshold := 3\<rparr>)"
        "[Rejects (), Rejects () :: (bool, unit) outcome]" clock0
        "CircuitBreakerE_new (cfg0\<lparr>failureThreshold := 3\<rparr>)"]
    trips_exactly_at_threshold
    [of "CircuitBreaker_new (cfg0\<lparr>failureThreshold := 3\<rparr>)"
        "[Rejects (), Rejects (), Rejects () :: (bool, unit) outcome]" clock0
        "CircuitBreakerE_new (cfg0\<lparr>failureThreshold := 3\<rparr>)"]
  by (simp add: CircuitBreaker_new_def CircuitBreakerE_new_def cfg0_def fails_with_value_def)

text \<open>
  C8 at a failing input. The threshold is 1 and the breaker is new, so closed with a
  failure count of 0. One call is made and the service fails, rejecting with
  \<^verbatim>\<open>undefined\<close>. The caller gets a \<^verbatim>\<open>TypeError\<close>, thrown by the log line of the
  \<^verbatim>\<open>catch\<close> block, and the breaker is as it was: closed, nothing counted. This
  is so in both implementations.
\<close>

theorem nullish_rejection_is_not_counted:
  "failureThreshold cfg0 = 1
   \<and> run_replies (CircuitBreaker_new cfg0) clock0 [RejectsNullish :: (bool, unit) outcome]
      = [(Inl TypeError, 1)]
   \<and> run_breaker (CircuitBreaker_new cfg0) clock0 [RejectsNullish :: (bool, unit) outcome]
      = CircuitBreaker_new cfg0
   \<and> state (CircuitBreaker_new cfg0) = ClosedState
   \<and> failureCount (CircuitBreaker_new cfg0) = 0
   \<and> runE_replies (CircuitBreakerE_new cfg0) clock0 [RejectsNullish :: (bool, unit) outcome]
      = [(Inl TypeError, 1)]
   \<and> runE_breaker (CircuitBreakerE_new cfg0) clock0 [RejectsNullish :: (bool, unit) outcome]
      = CircuitBreakerE_new cfg0
   \<and> stateE (CircuitBreakerE_new cfg0) = CLOSED
   \<and> failureCountE (CircuitBreakerE_new cfg0) = 0"
proof -
  have "state (CircuitBreaker_new cfg0) = ClosedState" "stateE (CircuitBreakerE_new cfg0) = CLOSED"
    "failureCount (CircuitBreaker_new cfg0) = 0" "failureCountE (CircuitBreakerE_new cfg0) = 0"
    "failureThreshold cfg0 = 1"
    by (simp_all add: CircuitBreaker_new_def CircuitBreakerE_new_def cfg0_def)
  then show ?thesis
    by (simp add: run_simps callService_Closed_RejectsNullish callServiceE_Closed_RejectsNullish)
qed

section \<open>The two implementations compared\<close>

lemma plain_call_agree:
  assumes "agree ctx cb" and "plain_call ctx clk"
  shows "reply (callService ctx clk settled) = reply (callServiceE cb clk settled)
    \<and> invocations (callService ctx clk settled) = invocations (callServiceE cb clk settled)
    \<and> clock_after (callService ctx clk settled) = clock_after (callServiceE cb clk settled)
    \<and> agree (breaker (callService ctx clk settled)) (breaker (callServiceE cb clk settled))"
proof (cases "state ctx")
  case ClosedState
  with assms(1) have "stateE cb = CLOSED"
    by (simp add: agree_def getState_def)
  with ClosedState assms(1) show ?thesis
    by (cases settled)
      (simp_all add: callService_Closed_Resolves callService_Closed_Rejects
        callService_Closed_RejectsNullish callServiceE_Closed_RejectsNullish
        callServiceE_Closed_Resolves callServiceE_Closed_Rejects
        agree_def getState_def ctx_ops resetE_def Let_def)
next
  case OpenState
  with assms(1) have "stateE cb = OPEN"
    by (simp add: agree_def getState_def)
  moreover from OpenState assms have
    "\<not> timeoutElapsed (lastFailureTimeE cb) (clk 1) (timeout (configE cb))"
    "\<not> timeoutElapsed (lastFailureTime ctx) (clk 1) (timeout (config ctx))"
    by (simp_all add: agree_def plain_call_def)
  ultimately show ?thesis
    using OpenState assms(1)
    by (simp add: callService_Open_blocked callServiceE_Open_blocked agree_def getState_def ctx_ops)
next
  case HalfOpenState
  with assms(2) show ?thesis
    by (simp add: plain_call_def)
qed

lemma no_probe_agree:
  "agree ctx cb \<Longrightarrow> no_probe ctx clk calls \<Longrightarrow>
   run_replies ctx clk calls = runE_replies cb clk calls
   \<and> agree (run_breaker ctx clk calls) (runE_breaker cb clk calls)"
proof (induction calls arbitrary: ctx cb clk)
  case Nil
  then show ?case by (simp add: run_simps)
next
  case (Cons settled calls)
  from Cons.prems have step:
    "reply (callService ctx clk settled) = reply (callServiceE cb clk settled)"
    "invocations (callService ctx clk settled) = invocations (callServiceE cb clk settled)"
    "clock_after (callService ctx clk settled) = clock_after (callServiceE cb clk settled)"
    "agree (breaker (callService ctx clk settled)) (breaker (callServiceE cb clk settled))"
    using plain_call_agree[of ctx cb clk settled] by simp_all
  from Cons.prems(2) have
    "no_probe (breaker (callService ctx clk settled)) (clock_after (callService ctx clk settled)) calls"
    by simp
  from Cons.IH[OF step(4) this] show ?case
    by (simp add: run_simps step)
qed

text \<open>
  C1, as far as it holds. Take a breaker of each implementation, made with the same
  configuration, and give both the same series of calls on the same clock, the
  calls made one at a time, each awaited before the next. If no call of the series
  is handled under the half-open rules (each finds the breaker closed, or open with
  the timeout not yet elapsed), the two give the same replies with the same service
  invocations, and end in the same state with the same \<open>failureCount\<close>,
  \<open>lastFailureTime\<close> and \<open>responseTimes\<close>.
\<close>

theorem implementations_agree_without_half_open_calls:
  assumes "no_probe (CircuitBreaker_new cfg) clk calls"
  shows "run_replies (CircuitBreaker_new cfg) clk calls = runE_replies (CircuitBreakerE_new cfg) clk calls
    \<and> getState (run_breaker (CircuitBreaker_new cfg) clk calls)
        = stateE (runE_breaker (CircuitBreakerE_new cfg) clk calls)
    \<and> failureCount (run_breaker (CircuitBreaker_new cfg) clk calls)
        = failureCountE (runE_breaker (CircuitBreakerE_new cfg) clk calls)
    \<and> lastFailureTime (run_breaker (CircuitBreaker_new cfg) clk calls)
        = lastFailureTimeE (runE_breaker (CircuitBreakerE_new cfg) clk calls)
    \<and> responseTimes (run_breaker (CircuitBreaker_new cfg) clk calls)
        = responseTimesE (runE_breaker (CircuitBreakerE_new cfg) clk calls)"
proof -
  have "agree (CircuitBreaker_new cfg) (CircuitBreakerE_new cfg)"
    by (simp add: agree_def getState_def CircuitBreaker_new_def CircuitBreakerE_new_def)
  from no_probe_agree[OF this assms] show ?thesis
    by (simp add: agree_def)
qed

theorem implementations_agree_without_half_open_calls_witness:
  "no_probe (CircuitBreaker_new cfg0) (frozen_clock 305)
     [Rejects (), Resolves True :: (bool, unit) outcome]
   \<and> run_replies (CircuitBreaker_new cfg0) (frozen_clock 305)
        [Rejects (), Resolves True :: (bool, unit) outcome]
      = runE_replies (CircuitBreakerE_new cfg0) (frozen_clock 305) [Rejects (), Resolves True]
   \<and> getState (run_breaker (CircuitBreaker_new cfg0) (frozen_clock 305)
        [Rejects (), Resolves True :: (bool, unit) outcome])
      = stateE (runE_breaker (CircuitBreakerE_new cfg0) (frozen_clock 305)
        [Rejects (), Resolves True :: (bool, unit) outcome])
   \<and> failureCount (run_breaker (CircuitBreaker_new cfg0) (frozen_clock 305)
        [Rejects (), Resolves True :: (bool, unit) outcome])
      = failureCountE (runE_breaker (CircuitBreakerE_new cfg0) (frozen_clock 305)
        [Rejects (), Resolves True :: (bool, unit) outcome])
   \<and> lastFailureTime (run_breaker (CircuitBreaker_new cfg0) (frozen_clock 305)
        [Rejects (), Resolves True :: (bool, unit) outcome])
      = lastFailureTimeE (runE_breaker (CircuitBreakerE_new cfg0) (frozen_clock 305)
        [Rejects (), Resolves True :: (bool, unit) outcome])
   \<and> responseTimes (run_breaker (CircuitBreaker_new cfg0) (frozen_clock 305)
        [Rejects (), Resolves True :: (bool, unit) outcome])
      = responseTimesE (runE_breaker (CircuitBreakerE_new cfg0) (frozen_clock 305)
        [Rejects (), Resolves True :: (bool, unit) outcome])"
proof -
  have "no_probe (CircuitBreaker_new cfg0) (frozen_clock 305)
     [Rejects (), Resolves True :: (bool, unit) outcome]"
    by (simp add: plain_call_def callService_Closed_Rejects CircuitBreaker_new_def cfg0_def
        frozen_clock_def timeoutElapsed_def ctx_ops)
  then show ?thesis
    using implementations_agree_without_half_open_calls
      [of cfg0 "frozen_clock 305" "[Rejects (), Resolves True :: (bool, unit) outcome]"]
    by simp
qed

lemma scenario_replies:
  "run_replies (CircuitBreaker_new cfg0) clock0 [Rejects e, Rejects e', settled] =
     [(Inl (ServiceError e), 1), (Inl (ServiceError e'), 1), (Inl ProbeLimitExceededError, 0)]"
  by (simp add: run_simps first_call second_call third_call_rejected)

lemma scenario_breaker:
  "run_breaker (CircuitBreaker_new cfg0) clock0 [Rejects e, Rejects e'] = probed0"
  "run_breaker (CircuitBreaker_new cfg0) clock0 [Rejects e, Rejects e', settled] = probed0"
  by (simp_all add: run_simps first_call second_call third_call_rejected)

lemma scenario_replies_enum:
  "runE_replies (CircuitBreakerE_new cfg0) clock0 [Rejects e, Rejects e', Resolves v] =
     [(Inl (ServiceError e), 1), (Inl (ServiceError e'), 1), (Inr v, 1)]"
  by (simp add: run_simps first_call_enum second_call_enum third_call_enum)

lemma scenario_breaker_enum:
  "runE_breaker (CircuitBreakerE_new cfg0) clock0 [Rejects e, Rejects e'] = probedE0"
  "runE_breaker (CircuitBreakerE_new cfg0) clock0 [Rejects e, Rejects e', Resolves v] =
     \<lparr>stateE = CLOSED, failureCountE = 0, lastFailureTimeE = None, configE = cfg0,
      responseTimesE = [100, 200, 200]\<rparr>"
  by (simp_all add: run_simps first_call_enum second_call_enum third_call_enum)

text \<open>
  C1, as stated, fails once a call is a half-open request. In the scenario the
  second call is a half-open request that fails and the third comes after the
  timeout again: the implementation with handlers rejects it with the probe-limit
  error, the enum implementation invokes the service and returns its result.
\<close>

theorem implementations_differ_counterexample:
  "\<not> (run_replies (CircuitBreaker_new cfg0) clock0
          [Rejects (), Rejects (), Resolves True :: (bool, unit) outcome]
        = runE_replies (CircuitBreakerE_new cfg0) clock0 [Rejects (), Rejects (), Resolves True]
      \<and> getState (run_breaker (CircuitBreaker_new cfg0) clock0
          [Rejects (), Rejects (), Resolves True :: (bool, unit) outcome])
        = stateE (runE_breaker (CircuitBreakerE_new cfg0) clock0
          [Rejects (), Rejects (), Resolves True :: (bool, unit) outcome])
      \<and> failureCount (run_breaker (CircuitBreaker_new cfg0) clock0
          [Rejects (), Rejects (), Resolves True :: (bool, unit) outcome])
        = failureCountE (runE_breaker (CircuitBreakerE_new cfg0) clock0
          [Rejects (), Rejects (), Resolves True :: (bool, unit) outcome])
      \<and> lastFailureTime (run_breaker (CircuitBreaker_new cfg0) clock0
          [Rejects (), Rejects (), Resolves True :: (bool, unit) outcome])
        = lastFailureTimeE (runE_breaker (CircuitBreakerE_new cfg0) clock0
          [Rejects (), Rejects (), Resolves True :: (bool, unit) outcome])
      \<and> responseTimes (run_breaker (CircuitBreaker_new cfg0) clock0
          [Rejects (), Rejects (), Resolves True :: (bool, unit) outcome])
        = responseTimesE (runE_breaker (CircuitBreakerE_new cfg0) clock0
          [Rejects (), Rejects (), Resolves True :: (bool, unit) outcome]))"
  by (simp add: scenario_replies scenario_replies_enum)

section \<open>Where the implementation with handlers departs from the specification\<close>

lemma late_call_rejected:
  "callService probed0 (frozen_clock 900) settled =
     \<lparr>reply = Inl ProbeLimitExceededError, invocations = 0, breaker = probed0,
      clock_after = frozen_clock 900\<rparr>"
  by (simp add: callService_Open_elapsed callService_HalfOpen_limit probed0_def
      cfg0_def timeoutElapsed_def ctx_ops frozen_clock_def frozen_clock_const)

lemma callService_appends_response_time:
  "length (responseTimes (breaker (callService ctx clk settled))) =
     (if reply (callService ctx clk settled) = Inl ProbeLimitExceededError
         \<or> reply (callService ctx clk settled) = Inl TypeError
      then length (responseTimes ctx) else Suc (length (responseTimes ctx)))"
proof -
  have half: "length (responseTimes (breaker (callService c k settled))) =
     (if reply (callService c k settled) = Inl ProbeLimitExceededError
         \<or> reply (callService c k settled) = Inl TypeError
      then length (responseTimes c) else Suc (length (responseTimes c)))"
    if "state c = HalfOpenState" for c k
  proof (cases "halfOpenRequestCount c \<ge> maxHalfOpenRequests (config c)")
    case True
    with that show ?thesis
      by (simp add: callService_HalfOpen_limit setState_def)
  next
    case False
    with that show ?thesis
      by (cases settled)
        (simp_all add: callService_HalfOpen_Resolves callService_HalfOpen_Rejects
          callService_HalfOpen_RejectsNullish ctx_ops)
  qed
  show ?thesis
  proof (cases "state ctx")
    case ClosedState
    then show ?thesis
      by (cases settled)
        (simp_all add: callService_Closed_Resolves callService_Closed_Rejects
          callService_Closed_RejectsNullish ctx_ops Let_def)
  next
    case OpenState
    show ?thesis
    proof (cases "timeoutElapsed (lastFailureTime ctx) (clk 1) (timeout (config ctx))")
      case True
      with OpenState show ?thesis
        using half[of "setState ctx HalfOpenState" "\<lambda>k. clk (Suc (Suc k))"]
        by (simp add: callService_Open_elapsed setState_def)
    next
      case False
      with OpenState show ?thesis
        by (simp add: callService_Open_blocked ctx_ops)
    qed
  next
    case HalfOpenState
    then show ?thesis by (rule half)
  qed
qed

lemma callServiceE_appends_response_time:
  "length (responseTimesE (breaker (callServiceE cb clk settled))) =
     (if reply (callServiceE cb clk settled) = Inl TypeError
      then length (responseTimesE cb) else Suc (length (responseTimesE cb)))"
proof (cases "stateE cb = OPEN")
  case True
  show ?thesis
  proof (cases "timeoutElapsed (lastFailureTimeE cb) (clk 1) (timeout (configE cb))")
    case elapsed: True
    with \<open>stateE cb = OPEN\<close> show ?thesis
      by (cases settled)
        (simp_all add: callServiceE_Open_elapsed_Resolves callServiceE_Open_elapsed_Rejects
          callServiceE_Open_elapsed_RejectsNullish resetE_def)
  next
    case False
    with \<open>stateE cb = OPEN\<close> show ?thesis
      by (simp add: callServiceE_Open_blocked)
  qed
next
  case False
  then show ?thesis
    by (cases settled) (simp_all add: enum_defs Date_now_def Let_def)
qed

text \<open>
  C3 at a failing input. Three calls are made in the scenario; the third is rejected
  by the half-open request limit. The implementation with handlers holds two
  response times afterwards, not three: \<^verbatim>\<open>HalfOpenState.callService\<close> throws
  before it reads the clock. The enum implementation holds three.
\<close>

theorem probe_limit_rejection_records_no_response_time:
  "run_replies (CircuitBreaker_new cfg0) clock0
     [Rejects (), Rejects (), Resolves True :: (bool, unit) outcome]
     = [(Inl (ServiceError ()), 1), (Inl (ServiceError ()), 1), (Inl ProbeLimitExceededError, 0)]
   \<and> responseTimes (run_breaker (CircuitBreaker_new cfg0) clock0
        [Rejects (), Rejects (), Resolves True :: (bool, unit) outcome]) = [100, 100]
   \<and> responseTimesE (runE_breaker (CircuitBreakerE_new cfg0) clock0
        [Rejects (), Rejects (), Resolves True :: (bool, unit) outcome]) = [100, 200, 200]"
  by (simp add: scenario_replies scenario_breaker scenario_breaker_enum probed0_def)

lemma entering_closed_resets_count:
  assumes "state ctx \<noteq> ClosedState"
    and "state (breaker (callService ctx clk settled)) = ClosedState"
  shows "halfOpenRequestCount (breaker (callService ctx clk settled)) = 0"
proof -
  have half: "halfOpenRequestCount (breaker (callService c k settled)) = 0"
    if "state c = HalfOpenState" "state (breaker (callService c k settled)) = ClosedState" for c k
  proof (cases "halfOpenRequestCount c \<ge> maxHalfOpenRequests (config c)")
    case True
    with that show ?thesis
      by (simp add: callService_HalfOpen_limit setState_def)
  next
    case False
    with that show ?thesis
      by (cases settled)
        (simp_all add: callService_HalfOpen_Resolves callService_HalfOpen_Rejects
          callService_HalfOpen_RejectsNullish ctx_ops)
  qed
  show ?thesis
  proof (cases "state ctx")
    case ClosedState
    with assms(1) show ?thesis by simp
  next
    case OpenState
    show ?thesis
    proof (cases "timeoutElapsed (lastFailureTime ctx) (clk 1) (timeout (config ctx))")
      case True
      with OpenState assms(2) show ?thesis
        using half[of "setState ctx HalfOpenState" "\<lambda>k. clk (Suc (Suc k))"]
        by (simp add: callService_Open_elapsed setState_def)
    next
      case False
      with OpenState assms(2) show ?thesis
        by (simp add: callService_Open_blocked ctx_ops)
    qed
  next
    case HalfOpenState
    then show ?thesis using assms(2) by (rule half)
  qed
qed

text \<open>
  C4 at a failing input. After the failed half-open request of the scenario the
  breaker is open with a half-open request count of 1. A call after the timeout
  enters the half-open state with the count still 1: \<^verbatim>\<open>OpenState.callService\<close>
  sets the state and hands the call on, and the half-open handler, finding the
  count at the limit, rejects this first call of the new half-open episode.
\<close>

theorem half_open_entry_keeps_request_count:
  "run_breaker (CircuitBreaker_new cfg0) clock0 [Rejects (), Rejects () :: (bool, unit) outcome]
     = probed0
   \<and> state probed0 = OpenState \<and> halfOpenRequestCount probed0 = 1
   \<and> timeoutElapsed (lastFailureTime probed0) (frozen_clock 900 1) (timeout (config probed0))
   \<and> (OpenState_callService_begin probed0 (frozen_clock 900)
        :: (unit, suspended) gate \<times> CircuitBreaker \<times> clock)
      = HalfOpenState_callService_begin (setState probed0 HalfOpenState) (frozen_clock 900)
   \<and> halfOpenRequestCount (setState probed0 HalfOpenState) = 1
   \<and> (HalfOpenState_callService_begin (setState probed0 HalfOpenState) (frozen_clock 900)
        :: (unit, suspended) gate \<times> CircuitBreaker \<times> clock)
      = (Rejected ProbeLimitExceededError, probed0, frozen_clock 900)"
  by (simp add: scenario_breaker)
    (simp add: probed0_def cfg0_def timeoutElapsed_def frozen_clock_def frozen_clock_const
      OpenState_callService_begin_def HalfOpenState_callService_begin_def setState_def Date_now_def)

text \<open>
  C6 at a failing input. The first call of the scenario fails while the breaker is
  closed and sets \<open>lastFailureTime\<close> to 300. The second call, whose readings
  start at 400, is a half-open request that fails: in the implementation with
  handlers \<open>lastFailureTime\<close> is still 300 afterwards
  (\<^verbatim>\<open>HalfOpenState.onFailure\<close> only sets the state), in the enum implementation it
  is 700, the time of that failure.
\<close>

theorem failed_probe_keeps_last_failure_time:
  "run_replies (CircuitBreaker_new cfg0) clock0 [Rejects (), Rejects () :: (bool, unit) outcome]
     = [(Inl (ServiceError ()), 1), (Inl (ServiceError ()), 1)]
   \<and> lastFailureTime (run_breaker (CircuitBreaker_new cfg0) clock0
        [Rejects () :: (bool, unit) outcome]) = Some 300
   \<and> clock0 3 = 400
   \<and> lastFailureTime (run_breaker (CircuitBreaker_new cfg0) clock0
        [Rejects (), Rejects () :: (bool, unit) outcome]) = Some 300
   \<and> lastFailureTimeE (runE_breaker (CircuitBreakerE_new cfg0) clock0
        [Rejects (), Rejects () :: (bool, unit) outcome]) = Some 700"
proof -
  have "clock0 3 = 400"
    by (simp add: clock0_def)
  moreover have "lastFailureTime tripped0 = Some 300" "lastFailureTime probed0 = Some 300"
    "lastFailureTimeE probedE0 = Some 700"
    by (simp_all add: tripped0_def probed0_def probedE0_def)
  ultimately show ?thesis
    by (simp add: run_simps first_call second_call first_call_enum second_call_enum)
qed

lemma open_call_after_timeout_below_limit:
  assumes "state ctx = OpenState"
    and "timeoutElapsed (lastFailureTime ctx) (clk 1) (timeout (config ctx))"
    and "halfOpenRequestCount ctx < maxHalfOpenRequests (config ctx)"
  shows "invocations (callService ctx clk settled) = 1"
    and "settled \<noteq> RejectsNullish \<Longrightarrow>
      responseTimes (breaker (callService ctx clk settled)) = responseTimes ctx @ [clk 3 - clk 2]"
proof -
  let ?h = "setState ctx HalfOpenState"
  have h: "state ?h = HalfOpenState" "halfOpenRequestCount ?h < maxHalfOpenRequests (config ?h)"
    using assms(3) by (simp_all add: setState_def)
  have c: "callService ctx clk settled = callService ?h (\<lambda>k. clk (Suc (Suc k))) settled"
    using assms(1,2) by (rule callService_Open_elapsed)
  show "invocations (callService ctx clk settled) = 1"
    unfolding c using h
    by (cases settled)
      (simp_all add: callService_HalfOpen_Resolves callService_HalfOpen_Rejects
        callService_HalfOpen_RejectsNullish)
  show "responseTimes (breaker (callService ctx clk settled)) = responseTimes ctx @ [clk 3 - clk 2]"
    if "settled \<noteq> RejectsNullish"
    unfolding c using h that
    by (cases settled)
      (simp_all add: callService_HalfOpen_Resolves callService_HalfOpen_Rejects
        setState_def reset_def recordResponseTime_def incrementHalfOpenRequest_def
        numeral_3_eq_3 numeral_2_eq_2)
qed

lemma open_call_after_timeout_enum:
  assumes "stateE cb = OPEN"
    and "timeoutElapsed (lastFailureTimeE cb) (clk 1) (timeout (configE cb))"
  shows "invocations (callServiceE cb clk settled) = 1"
    and "settled \<noteq> RejectsNullish \<Longrightarrow>
      responseTimesE (breaker (callServiceE cb clk settled)) = responseTimesE cb @ [clk 2 - clk 0]"
proof -
  show "invocations (callServiceE cb clk settled) = 1"
    using assms
    by (cases settled)
      (simp_all add: callServiceE_Open_elapsed_Resolves callServiceE_Open_elapsed_Rejects
        callServiceE_Open_elapsed_RejectsNullish)
  show "responseTimesE (breaker (callServiceE cb clk settled)) = responseTimesE cb @ [clk 2 - clk 0]"
    if "settled \<noteq> RejectsNullish"
    using assms that
    by (cases settled)
      (simp_all add: callServiceE_Open_elapsed_Resolves callServiceE_Open_elapsed_Rejects resetE_def)
qed

text \<open>
  C7 at a failing input. The breaker reached after the failed half-open request of
  the scenario is open and its timeout has elapsed at 900. A call made then does
  not invoke the service and appends no response time in the implementation with
  handlers: it is rejected with the probe-limit error. The enum implementation
  invokes the service once.
\<close>

theorem open_call_after_timeout_rejected_at_limit:
  "run_breaker (CircuitBreaker_new cfg0) clock0 [Rejects (), Rejects () :: (bool, unit) outcome]
     = probed0
   \<and> state probed0 = OpenState
   \<and> timeoutElapsed (lastFailureTime probed0) (frozen_clock 900 1) (timeout (config probed0))
   \<and> callService probed0 (frozen_clock 900) (Resolves True :: (bool, unit) outcome) =
      \<lparr>reply = Inl ProbeLimitExceededError, invocations = 0, breaker = probed0,
       clock_after = frozen_clock 900\<rparr>
   \<and> invocations (callServiceE probedE0 (frozen_clock 900) (Resolves True :: (bool, unit) outcome))
      = 1"
proof -
  have "timeoutElapsed (lastFailureTime probed0) (frozen_clock 900 1) (timeout (config probed0))"
    by (simp add: probed0_def cfg0_def timeoutElapsed_def frozen_clock_def)
  moreover have "invocations (callServiceE probedE0 (frozen_clock 900)
      (Resolves True :: (bool, unit) outcome)) = 1"
    by (simp add: callServiceE_Open_elapsed_Resolves probedE0_def cfg0_def timeoutElapsed_def
        frozen_clock_def)
  moreover have "state probed0 = OpenState"
    by (simp add: probed0_def)
  ultimately show ?thesis
    by (simp add: scenario_breaker late_call_rejected)
qed

end
